theory Spec2Isabelle
  imports Main "HOL-Library.Sublist"
begin

section \<open>Python values, exceptions and string operations used by chatbot.py\<close>

text \<open>
  The exceptions that can travel through \<^verbatim>\<open>MovieChatBot.chat\<close>. \<open>SyntaxError\<close> stands
  for Python's class and its subclasses (the clause \<^verbatim>\<open>except SyntaxError\<close> catches them
  all), \<open>CypherSyntaxError\<close> for the class of \<^verbatim>\<open>neo4j.exceptions\<close>, which does not derive
  from Python's \<open>SyntaxError\<close>. Every other exception class is an \<open>OtherException\<close>.
\<close>

datatype py_exc =
    SyntaxError
  | ValueError
  | TypeError
  | MemoryError
  | RecursionError
  | CypherSyntaxError
  | OtherException string

text \<open>
  The values \<^verbatim>\<open>ast.literal_eval\<close> can return. A \<^verbatim>\<open>str\<close> is a list of characters
  (code points below 256). A set carries its elements in iteration order, a dict its
  items in insertion order. \<open>PScalar\<close> is any other literal (float, complex, boolean,
  None, Ellipsis), kept as its text: none of them can be iterated or added to a str.
\<close>

datatype pyval =
    PStr string
  | PBytes "nat list"
  | PInt int
  | PScalar string
  | PList "pyval list"
  | PTuple "pyval list"
  | PSet "pyval list"
  | PDict "(pyval \<times> pyval) list"

text \<open>What a \<^verbatim>\<open>for\<close> loop over \<^verbatim>\<open>enumerate(v)\<close> visits; a value that is not iterable raises.\<close>

fun py_iter :: "pyval \<Rightarrow> py_exc + pyval list" where
  "py_iter (PStr s) = Inr (map (\<lambda>c. PStr [c]) s)"
| "py_iter (PBytes bs) = Inr (map (\<lambda>b. PInt (int b)) bs)"
| "py_iter (PInt n) = Inl TypeError"
| "py_iter (PScalar t) = Inl TypeError"
| "py_iter (PList vs) = Inr vs"
| "py_iter (PTuple vs) = Inr vs"
| "py_iter (PSet vs) = Inr vs"
| "py_iter (PDict kvs) = Inr (map fst kvs)"

text \<open>\<^verbatim>\<open>"literal" + v\<close>: defined for a str operand only.\<close>

fun py_str_add :: "string \<Rightarrow> pyval \<Rightarrow> py_exc + string" where
  "py_str_add p (PStr t) = Inr (p @ t)"
| "py_str_add p v = Inl TypeError"

text \<open>\<^verbatim>\<open>sub in s\<close> on strings.\<close>

fun py_contains :: "string \<Rightarrow> string \<Rightarrow> bool" where
  "py_contains sub [] = (sub = [])"
| "py_contains sub (c # cs) = (prefix sub (c # cs) \<or> py_contains sub cs)"

text \<open>
  \<^verbatim>\<open>s.split(sep)\<close> for a non-empty separator: the pieces between the occurrences of
  \<open>sep\<close>, found from left to right without overlap. \<open>acc\<close> is the piece being read.
  (Python raises \<open>ValueError\<close> for an empty separator; the program only passes the
  literal marker.)
\<close>

function split_from :: "string \<Rightarrow> string \<Rightarrow> string \<Rightarrow> string list" where
  "split_from sep acc [] = [acc]"
| "split_from sep acc (c # cs) =
     (if sep \<noteq> [] \<and> prefix sep (c # cs)
      then acc # split_from sep [] (drop (length sep) (c # cs))
      else split_from sep (acc @ [c]) cs)"
  by pat_completeness auto
termination
  by (relation "measure (\<lambda>(sep, acc, s). length s)") auto

definition py_split :: "string \<Rightarrow> string \<Rightarrow> string list" where
  "py_split s sep = split_from sep [] s"

text \<open>
  \<^verbatim>\<open>str.isspace\<close> on the code points below 256: TAB, LF, VT, FF, CR, the four
  separators FS, GS, RS, US, the space, NEL and the no-break space.
\<close>

definition is_space :: "char \<Rightarrow> bool" where
  "is_space c = ((of_char c :: nat) \<in> {9, 10, 11, 12, 13, 28, 29, 30, 31, 32, 133, 160})"

definition py_strip :: "string \<Rightarrow> string" where
  "py_strip s = rev (dropWhile is_space (rev (dropWhile is_space s)))"

fun join :: "string \<Rightarrow> string list \<Rightarrow> string" where
  "join sep [] = []"
| "join sep [x] = x"
| "join sep (x # y # ys) = x @ sep @ join sep (y # ys)"

text \<open>
  The result of \<^verbatim>\<open>Neo4jGraph.query\<close> is a list of rows, each a dict from column name
  to value. A row is kept as its items, key and value each in their \<^verbatim>\<open>repr\<close> text, so
  that \<^verbatim>\<open>str(rows)\<close> is the rendering Python gives a list of dicts.
\<close>

type_synonym row = "(string \<times> string) list"

definition py_repr_row :: "row \<Rightarrow> string" where
  "py_repr_row r = ''{'' @ join '', '' (map (\<lambda>(k, v). k @ '': '' @ v) r) @ ''}''"

definition py_str_rows :: "row list \<Rightarrow> string" where
  "py_str_rows rs = ''['' @ join '', '' (map py_repr_row rs) @ '']''"

section \<open>The state of MovieChatBot and its collaborators\<close>

text \<open>An entry of \<^verbatim>\<open>_chat_history\<close>: the dict of a user turn or of an assistant turn.\<close>

datatype turn =
    User string "string list"
  | Assistant string

text \<open>
  What the program does to the outside, in order: the argument of each \<^verbatim>\<open>print\<close>, and
  each call of \<^verbatim>\<open>self._graphDB.query\<close> with the candidate passed and what came back.
\<close>

datatype event =
    Printed string
  | DbCall pyval "py_exc + row list"

text \<open>
  The first seven fields are the instance fields of \<^verbatim>\<open>MovieChatBot.__init__\<close>
  (\<open>bot_context\<close> is \<^verbatim>\<open>_context\<close>). \<open>world\<close> is the state of the language model
  and of the graph database, which the program cannot see; \<open>events\<close> is the log of
  the interactions above. The list stored in a user turn is never mutated afterwards
  (\<^verbatim>\<open>_context\<close> is rebound to a fresh list, never cleared in place), so the turn
  holds a value.
\<close>

record 'w bot_state =
  chat_history :: "turn list"
  rag_question :: string
  question :: string
  answer :: string
  bot_context :: "string list"
  previous_queries :: "string list"
  used_queries :: "pyval list"
  world :: 'w
  events :: "event list"

text \<open>
  The collaborators, none of which is code of the repository:
  \<^item> \<open>chat_completion sys usr\<close>: \<^verbatim>\<open>InferenceClient.chat_completion\<close> followed by the
    selection of the message content;
  \<^item> \<open>literal_eval\<close>: \<^verbatim>\<open>ast.literal_eval\<close>;
  \<^item> \<open>graph_query\<close>: \<^verbatim>\<open>Neo4jGraph.query\<close>;
  \<^item> \<open>base_template question context chat_history\<close> and
    \<open>cypher_prompt_template question previous_queries used_quries\<close>: the two templates of
    prompts.yaml, rendered by \<^verbatim>\<open>invoke(...).to_string()\<close>.
  The language model and the database read and change the world; either may raise.
\<close>

record 'w env =
  chat_completion :: "string \<Rightarrow> string \<Rightarrow> 'w \<Rightarrow> (py_exc + string) \<times> 'w"
  literal_eval :: "string \<Rightarrow> py_exc + pyval"
  graph_query :: "pyval \<Rightarrow> 'w \<Rightarrow> (py_exc + row list) \<times> 'w"
  base_template :: "string \<Rightarrow> string list \<Rightarrow> turn list \<Rightarrow> string"
  cypher_prompt_template :: "string \<Rightarrow> string list \<Rightarrow> pyval list \<Rightarrow> string"

section \<open>The methods of MovieChatBot\<close>

definition generate_chat_anserw ::
  "'w env \<Rightarrow> string \<Rightarrow> string \<Rightarrow> 'w bot_state \<Rightarrow> (py_exc + string) \<times> 'w bot_state" where
  "generate_chat_anserw E system_prompt user_prompt s =
     (case chat_completion E system_prompt user_prompt (world s) of
        (r, w) \<Rightarrow> (r, s\<lparr>world := w\<rparr>))"

definition generate_cypher_query ::
  "'w env \<Rightarrow> 'w bot_state \<Rightarrow> (py_exc + string) \<times> 'w bot_state" where
  "generate_cypher_query E s =
     generate_chat_anserw E ''You are an expert Neo4j Cypher generator.''
       (cypher_prompt_template E (rag_question s) (previous_queries s) (used_queries s)) s"

definition save_chat_history :: "'w bot_state \<Rightarrow> 'w bot_state" where
  "save_chat_history s =
     s\<lparr>chat_history :=
         chat_history s @ [User (question s) (bot_context s), Assistant (answer s)]\<rparr>"

definition restart :: "'w bot_state \<Rightarrow> 'w bot_state" where
  "restart s =
     s\<lparr>chat_history := [], rag_question := [], question := [], answer := [],
       bot_context := [], previous_queries := [], used_queries := []\<rparr>"

section \<open>The body of MovieChatBot.chat for one question\<close>

definition marker :: string where
  "marker = ''NO_CONTEXT''"

definition has_marker :: "string \<Rightarrow> bool" where
  "has_marker a = py_contains marker a"

definition invalid_prefix :: string where
  "invalid_prefix = ''Invalid syntax of this query: ''"

definition no_data_prefix :: string where
  "no_data_prefix = ''No data generated for this query: ''"

definition syntax_notice :: string where
  "syntax_notice = ''System: System error, cannot provide additional data'' @ [CHR 0x0A]"

text \<open>Lines 130 to 133: the assignments made when a question arrives.\<close>

definition begin_question :: "string \<Rightarrow> 'w bot_state \<Rightarrow> 'w bot_state" where
  "begin_question user_q s =
     s\<lparr>question := user_q, bot_context := [], used_queries := [], previous_queries := []\<rparr>"

text \<open>
  Lines 136 to 146 and 181 to 190: render the base template from the current fields
  and ask the model for an answer, which is stored in \<^verbatim>\<open>_answer\<close>.
\<close>

definition ask_model :: "'w env \<Rightarrow> 'w bot_state \<Rightarrow> py_exc + 'w bot_state" where
  "ask_model E s =
     (case generate_chat_anserw E ''You are movie chatbot''
             (base_template E (question s) (bot_context s) (chat_history s)) s of
        (Inl e, s') \<Rightarrow> Inl e
      | (Inr a, s') \<Rightarrow> Inr (s'\<lparr>answer := a\<rparr>))"

text \<open>
  Lines 155 to 158: \<^verbatim>\<open>ast.literal_eval\<close> under \<^verbatim>\<open>try\<close>, with the one handler
  \<^verbatim>\<open>except SyntaxError\<close>. Any other exception leaves the method.
\<close>

definition parse_query_list :: "'w env \<Rightarrow> string \<Rightarrow> py_exc + pyval" where
  "parse_query_list E out =
     (case literal_eval E out of
        Inl e \<Rightarrow> if e = SyntaxError then Inr (PList [PStr out]) else Inl e
      | Inr v \<Rightarrow> Inr v)"

text \<open>
  Lines 162 to 178: the body of the \<^verbatim>\<open>for\<close> loop for one candidate. The handler
  catches \<open>CypherSyntaxError\<close> only; the two concatenations raise \<open>TypeError\<close> for a
  candidate that is not a str, the first of them inside the \<^verbatim>\<open>try\<close> (where no handler
  matches), the second inside the handler.
\<close>

definition execute_query :: "'w env \<Rightarrow> pyval \<Rightarrow> 'w bot_state \<Rightarrow> py_exc + 'w bot_state" where
  "execute_query E cypher_query s =
     (case graph_query E cypher_query (world s) of
        (r, w) \<Rightarrow>
          let s1 = s\<lparr>world := w, events := events s @ [DbCall cypher_query r]\<rparr> in
          (case r of
             Inl e \<Rightarrow>
               if e = CypherSyntaxError then
                 let s2 = s1\<lparr>events := events s1 @ [Printed syntax_notice]\<rparr> in
                 (case py_str_add invalid_prefix cypher_query of
                    Inl e' \<Rightarrow> Inl e'
                  | Inr q \<Rightarrow> Inr (s2\<lparr>previous_queries := previous_queries s2 @ [q]\<rparr>))
               else Inl e
           | Inr rows \<Rightarrow>
               let context = py_str_rows rows in
               if py_strip context = ''[]'' then
                 (case py_str_add no_data_prefix cypher_query of
                    Inl e' \<Rightarrow> Inl e'
                  | Inr q \<Rightarrow> Inr (s1\<lparr>previous_queries := previous_queries s1 @ [q]\<rparr>))
               else
                 Inr (s1\<lparr>bot_context := bot_context s1 @ [context],
                         used_queries := used_queries s1 @ [cypher_query]\<rparr>)))"

text \<open>Lines 161 to 178: the \<^verbatim>\<open>for\<close> loop; an exception that is not caught ends it.\<close>

fun execute_queries :: "'w env \<Rightarrow> pyval list \<Rightarrow> 'w bot_state \<Rightarrow> py_exc + 'w bot_state" where
  "execute_queries E [] s = Inr s"
| "execute_queries E (c # cs) s =
     (case execute_query E c s of
        Inl e \<Rightarrow> Inl e
      | Inr s' \<Rightarrow> execute_queries E cs s')"

text \<open>
  Lines 155 to 161: the sequence the \<^verbatim>\<open>for\<close> loop runs over, for the text \<open>out\<close>
  that the model returned as its queries.
\<close>

definition candidate_queries :: "'w env \<Rightarrow> string \<Rightarrow> py_exc + pyval list" where
  "candidate_queries E out =
     (case parse_query_list E out of
        Inl e \<Rightarrow> Inl e
      | Inr cypher_queries_list \<Rightarrow> py_iter cypher_queries_list)"

text \<open>Lines 150 to 190: the body of the \<^verbatim>\<open>while\<close> loop, one retrieval round.\<close>

definition retrieval_round :: "'w env \<Rightarrow> 'w bot_state \<Rightarrow> py_exc + 'w bot_state" where
  "retrieval_round E s =
     (let s1 = s\<lparr>rag_question := py_strip (last (py_split (answer s) marker))\<rparr> in
      case generate_cypher_query E s1 of
        (Inl e, s2) \<Rightarrow> Inl e
      | (Inr out, s2) \<Rightarrow>
          (case candidate_queries E out of
             Inl e \<Rightarrow> Inl e
           | Inr candidates \<Rightarrow>
               (case execute_queries E candidates s2 of
                  Inl e \<Rightarrow> Inl e
                | Inr s3 \<Rightarrow> ask_model E s3)))"

text \<open>
  Lines 149 to 190: the \<^verbatim>\<open>while\<close> loop. It has no bound, so the model is a partial
  function: \<open>None\<close> is a loop that never ends, \<open>Some (Inl e)\<close> one left by the
  exception \<open>e\<close>, \<open>Some (Inr s)\<close> one left by its condition in state \<open>s\<close>.
\<close>

partial_function (option) retrieval_loop ::
  "'w env \<Rightarrow> 'w bot_state \<Rightarrow> (py_exc + 'w bot_state) option" where
  "retrieval_loop E s =
     (if has_marker (answer s) then
        (case retrieval_round E s of
           Inl e \<Rightarrow> Some (Inl e)
         | Inr s' \<Rightarrow> retrieval_loop E s')
      else Some (Inr s))"

declare retrieval_loop.simps [code]

text \<open>Lines 193 and 194: the answer is printed, then saved.\<close>

definition finish_question :: "'w bot_state \<Rightarrow> 'w bot_state" where
  "finish_question s =
     save_chat_history
       (s\<lparr>events := events s @ [Printed (''Bot: '' @ answer s @ [CHR 0x0A])]\<rparr>)"

text \<open>
  Lines 129 to 194: the \<^verbatim>\<open>else\<close> branch of \<^verbatim>\<open>chat\<close>, run for an input that is no
  command.
\<close>

definition answer_question ::
  "'w env \<Rightarrow> string \<Rightarrow> 'w bot_state \<Rightarrow> (py_exc + 'w bot_state) option" where
  "answer_question E user_q s =
     (case ask_model E (begin_question user_q s) of
        Inl e \<Rightarrow> Some (Inl e)
      | Inr s1 \<Rightarrow>
          (case retrieval_loop E s1 of
             None \<Rightarrow> None
           | Some (Inl e) \<Rightarrow> Some (Inl e)
           | Some (Inr s2) \<Rightarrow> Some (Inr (finish_question s2))))"

section \<open>Observations on states and logs\<close>

text \<open>The calls of the graph database recorded in a log, oldest first.\<close>

fun db_calls :: "event list \<Rightarrow> (pyval \<times> (py_exc + row list)) list" where
  "db_calls [] = []"
| "db_calls (Printed t # es) = db_calls es"
| "db_calls (DbCall c r # es) = (c, r) # db_calls es"

definition submitted :: "event list \<Rightarrow> pyval list" where
  "submitted es = map fst (db_calls es)"


text \<open>\<^verbatim>\<open>len(self._context) == len(self._used_queries)\<close>.\<close>

definition paired :: "'w bot_state \<Rightarrow> bool" where
  "paired s = (length (bot_context s) = length (used_queries s))"

text \<open>A call of the database that the loop body records as failed.\<close>

definition failed :: "py_exc + row list \<Rightarrow> bool" where
  "failed r = (r = Inl CypherSyntaxError \<or> r = Inr [])"

text \<open>No candidate of the call list is passed again after a call with it has failed.\<close>

fun no_resubmission :: "(pyval \<times> (py_exc + row list)) list \<Rightarrow> bool" where
  "no_resubmission [] = True"
| "no_resubmission ((c, r) # rest) =
     ((failed r \<longrightarrow> c \<notin> set (map fst rest)) \<and> no_resubmission rest)"

text \<open>
  A property of the state that no assignment to \<^verbatim>\<open>_rag_question\<close>, \<^verbatim>\<open>_answer\<close> or
  the world can break, and a property that one pass of the loop body keeps.
\<close>

definition framed :: "('w bot_state \<Rightarrow> bool) \<Rightarrow> bool" where
  "framed I =
     (\<forall>u. I u \<longrightarrow> (\<forall>r. I (u\<lparr>rag_question := r\<rparr>)) \<and> (\<forall>w. I (u\<lparr>world := w\<rparr>)) \<and>
                 (\<forall>a. I (u\<lparr>answer := a\<rparr>)))"

definition kept_by_query :: "'w env \<Rightarrow> ('w bot_state \<Rightarrow> bool) \<Rightarrow> bool" where
  "kept_by_query E I = (\<forall>u c v. I u \<longrightarrow> execute_query E c u = Inr v \<longrightarrow> I v)"

section \<open>A scripted environment for concrete runs\<close>

text \<open>
  The world is the list of texts the language model will return, in order; the
  model fails once the list is used up.
\<close>

definition scripted_llm ::
  "string \<Rightarrow> string \<Rightarrow> string list \<Rightarrow> (py_exc + string) \<times> string list" where
  "scripted_llm system_prompt user_prompt w =
     (case w of
        [] \<Rightarrow> (Inl (OtherException ''no completion''), [])
      | r # rs \<Rightarrow> (Inr r, rs))"

definition query_found :: string where
  "query_found = ''MATCH (m:Movie) RETURN m.title LIMIT 1''"

definition query_typo :: string where
  "query_typo = ''MATCH (m:Movie RETURN m''"

definition query_none :: string where
  "query_none = ''MATCH (m:Movie {id: 0}) RETURN m.title''"

definition dq :: string where
  "dq = [CHR 0x22]"

definition sq :: string where
  "sq = [CHR 0x27]"

definition found_row :: row where
  "found_row = [(sq @ ''title'' @ sq, sq @ ''Heat'' @ sq)]"

definition found_rows :: "row list" where
  "found_rows = [found_row]"

definition list_text :: string where
  "list_text =
     ''['' @ dq @ query_found @ dq @ '', '' @ dq @ query_typo @ dq @ '', '' @
     dq @ query_none @ dq @ '']''"

definition twice_text :: string where
  "twice_text = ''['' @ dq @ query_none @ dq @ '', '' @ dq @ query_none @ dq @ '']''"

definition quoted_text :: string where
  "quoted_text = dq @ ''ab'' @ dq"

text \<open>
  What CPython's \<^verbatim>\<open>ast.literal_eval\<close> returns on the texts used in the runs below: two
  list displays of strings, a list display of two numbers, a quoted string, the bare name
  \<^verbatim>\<open>x\<close> (a well-formed expression that is no literal: \<open>ValueError\<close>), and Cypher
  text, which is no Python expression.
\<close>

definition table_literal_eval :: "string \<Rightarrow> py_exc + pyval" where
  "table_literal_eval out =
     (if out = list_text then Inr (PList [PStr query_found, PStr query_typo, PStr query_none])
      else if out = twice_text then Inr (PList [PStr query_none, PStr query_none])
      else if out = quoted_text then Inr (PStr ''ab'')
      else if out = ''[7, 8]'' then Inr (PList [PInt 7, PInt 8])
      else if out = ''x'' then Inl ValueError
      else Inl SyntaxError)"

text \<open>
  A database with one movie: \<open>query_found\<close> returns a row, \<open>query_none\<close> matches
  nothing, and anything else, a candidate that is no str included, is rejected as text
  that is not Cypher.
\<close>

definition table_graph_query ::
  "pyval \<Rightarrow> 'w \<Rightarrow> (py_exc + row list) \<times> 'w" where
  "table_graph_query c w =
     (case c of
        PStr q \<Rightarrow>
          if q = query_found then (Inr found_rows, w)
          else if q = query_none then (Inr [], w)
          else (Inl CypherSyntaxError, w)
      | _ \<Rightarrow> (Inl CypherSyntaxError, w))"

definition scripted_env :: "string list env" where
  "scripted_env =
     \<lparr>chat_completion = scripted_llm,
      literal_eval = table_literal_eval,
      graph_query = table_graph_query,
      base_template = (\<lambda>q c h. q @ '' | '' @ join ''; '' c),
      cypher_prompt_template = (\<lambda>q p u. q @ '' | '' @ join ''; '' p)\<rparr>"

text \<open>
  A language model that asks for more context on every answer request and returns the
  same Cypher text on every query request.
\<close>

definition insisting_llm :: "string \<Rightarrow> string \<Rightarrow> unit \<Rightarrow> (py_exc + string) \<times> unit" where
  "insisting_llm system_prompt user_prompt w =
     (if system_prompt = ''You are movie chatbot''
      then (Inr ''NO_CONTEXT Which movies exist?'', w)
      else (Inr query_none, w))"

definition insisting_env :: "unit env" where
  "insisting_env =
     \<lparr>chat_completion = insisting_llm,
      literal_eval = table_literal_eval,
      graph_query = table_graph_query,
      base_template = (\<lambda>q c h. q),
      cypher_prompt_template = (\<lambda>q p u. q)\<rparr>"

definition fresh_state :: "'w \<Rightarrow> 'w bot_state" where
  "fresh_state w =
     \<lparr>chat_history = [], rag_question = [], question = [], answer = [],
      bot_context = [], previous_queries = [], used_queries = [],
      world = w, events = []\<rparr>"

text \<open>
  A run with one retrieval round: the first answer asks for context, the model then
  returns a list of three queries, and the second answer is final.
\<close>

definition run_script :: "string list" where
  "run_script = [''NO_CONTEXT Which movie is stored?'', list_text, ''Heat'']"

definition run_final :: "string list bot_state" where
  "run_final =
     \<lparr>chat_history = [User ''Which movie?'' [py_str_rows found_rows], Assistant ''Heat''],
      rag_question = ''Which movie is stored?'',
      question = ''Which movie?'',
      answer = ''Heat'',
      bot_context = [py_str_rows found_rows],
      previous_queries = [invalid_prefix @ query_typo, no_data_prefix @ query_none],
      used_queries = [PStr query_found],
      world = [],
      events =
        [DbCall (PStr query_found) (Inr found_rows),
         DbCall (PStr query_typo) (Inl CypherSyntaxError),
         Printed syntax_notice,
         DbCall (PStr query_none) (Inr []),
         Printed (''Bot: Heat'' @ [CHR 0x0A])]\<rparr>"

text \<open>The same run at the head of the loop, and when the loop has been left.\<close>

definition run_asked :: "string list bot_state" where
  "run_asked =
     \<lparr>chat_history = [], rag_question = [],
      question = ''Which movie?'',
      answer = ''NO_CONTEXT Which movie is stored?'',
      bot_context = [], previous_queries = [], used_queries = [],
      world = [list_text, ''Heat''],
      events = []\<rparr>"

definition run_looped :: "string list bot_state" where
  "run_looped =
     \<lparr>chat_history = [],
      rag_question = ''Which movie is stored?'',
      question = ''Which movie?'',
      answer = ''Heat'',
      bot_context = [py_str_rows found_rows],
      previous_queries = [invalid_prefix @ query_typo, no_data_prefix @ query_none],
      used_queries = [PStr query_found],
      world = [],
      events =
        [DbCall (PStr query_found) (Inr found_rows),
         DbCall (PStr query_typo) (Inl CypherSyntaxError),
         Printed syntax_notice,
         DbCall (PStr query_none) (Inr [])]\<rparr>"

text \<open>The state after the \<^verbatim>\<open>for\<close> loop has run over the list of \<open>twice_text\<close>.\<close>

definition twice_state :: "string list bot_state" where
  "twice_state =
     \<lparr>chat_history = [], rag_question = [], question = [], answer = [],
      bot_context = [],
      previous_queries = [no_data_prefix @ query_none, no_data_prefix @ query_none],
      used_queries = [],
      world = [],
      events = [DbCall (PStr query_none) (Inr []), DbCall (PStr query_none) (Inr [])]\<rparr>"

text \<open>
  Two questions in a row: the run above with one more text left for the model, and the
  state after a second question that the model answers at once.
\<close>

definition turn_one :: "string list bot_state" where
  "turn_one = run_final\<lparr>world := [''You are welcome'']\<rparr>"

definition turn_two :: "string list bot_state" where
  "turn_two =
     \<lparr>chat_history =
        chat_history run_final @ [User ''Thanks'' [], Assistant ''You are welcome''],
      rag_question = ''Which movie is stored?'',
      question = ''Thanks'',
      answer = ''You are welcome'',
      bot_context = [], previous_queries = [], used_queries = [],
      world = [],
      events = events run_final @ [Printed (''Bot: You are welcome'' @ [CHR 0x0A])]\<rparr>"

section \<open>Lemmas on the string operations\<close>

text \<open>\<^verbatim>\<open>split\<close> returns at least one piece, so its last piece exists.\<close>

lemma split_from_not_Nil: "split_from sep acc s \<noteq> []"
  by (induction sep acc s rule: split_from.induct) simp_all

lemma py_split_not_Nil: "py_split s sep \<noteq> []"
  by (simp add: py_split_def split_from_not_Nil)

lemma dropWhile_hd_id: "s \<noteq> [] \<Longrightarrow> \<not> P (hd s) \<Longrightarrow> dropWhile P s = s"
  by (cases s) simp_all

lemma py_strip_id:
  assumes "s \<noteq> []" and "\<not> is_space (hd s)" and "\<not> is_space (last s)"
  shows "py_strip s = s"
proof -
  have front: "dropWhile is_space s = s"
    using assms(1,2) by (rule dropWhile_hd_id)
  have "rev s \<noteq> []" and "\<not> is_space (hd (rev s))"
    using assms(1,3) by (simp_all add: hd_rev)
  then have "dropWhile is_space (rev s) = rev s"
    by (rule dropWhile_hd_id)
  with front show ?thesis
    by (simp add: py_strip_def)
qed

lemma join_Nil_iff: "join sep xs = [] \<Longrightarrow> xs = [] \<or> hd xs = []"
  by (induction sep xs rule: join.induct) auto

lemma py_repr_row_not_Nil: "py_repr_row r \<noteq> []"
  by (simp add: py_repr_row_def)

lemma py_str_rows_empty_iff: "py_str_rows rs = ''[]'' \<longleftrightarrow> rs = []"
proof
  assume "py_str_rows rs = ''[]''"
  then have "join '', '' (map py_repr_row rs) = []"
    by (simp add: py_str_rows_def)
  then have "map py_repr_row rs = [] \<or> hd (map py_repr_row rs) = []"
    by (rule join_Nil_iff)
  then show "rs = []"
    by (cases rs) (simp_all add: py_repr_row_not_Nil)
next
  assume "rs = []"
  then show "py_str_rows rs = ''[]''"
    by (simp add: py_str_rows_def)
qed

lemma py_strip_str_rows: "py_strip (py_str_rows rs) = py_str_rows rs"
  by (rule py_strip_id) (simp_all add: py_str_rows_def is_space_def)

lemma py_str_add_Inr: "py_str_add p c = Inr q \<Longrightarrow> \<exists>t. c = PStr t \<and> q = p @ t"
  by (cases c) simp_all

section \<open>One pass of the loop body\<close>

lemma execute_query_syntax:
  assumes "graph_query E (PStr q) (world s) = (Inl CypherSyntaxError, w)"
  shows "execute_query E (PStr q) s =
     Inr (s\<lparr>world := w,
            events := events s @ [DbCall (PStr q) (Inl CypherSyntaxError), Printed syntax_notice],
            previous_queries := previous_queries s @ [invalid_prefix @ q]\<rparr>)"
  using assms by (simp add: execute_query_def Let_def)

lemma execute_query_empty:
  assumes "graph_query E (PStr q) (world s) = (Inr [], w)"
  shows "execute_query E (PStr q) s =
     Inr (s\<lparr>world := w,
            events := events s @ [DbCall (PStr q) (Inr [])],
            previous_queries := previous_queries s @ [no_data_prefix @ q]\<rparr>)"
  using assms by (simp add: execute_query_def Let_def py_strip_str_rows py_str_rows_empty_iff)

lemma execute_query_rows:
  assumes "graph_query E c (world s) = (Inr rows, w)" and "rows \<noteq> []"
  shows "execute_query E c s =
     Inr (s\<lparr>world := w,
            events := events s @ [DbCall c (Inr rows)],
            bot_context := bot_context s @ [py_str_rows rows],
            used_queries := used_queries s @ [c]\<rparr>)"
  using assms by (simp add: execute_query_def Let_def py_strip_str_rows py_str_rows_empty_iff)

lemma execute_query_other:
  assumes "graph_query E c (world s) = (Inl e, w)" and "e \<noteq> CypherSyntaxError"
  shows "execute_query E c s = Inl e"
  using assms by (simp add: execute_query_def Let_def)

lemma execute_query_Inr_cases:
  assumes "execute_query E c s = Inr s'"
  obtains
    (invalid) q w where "c = PStr q"
      and "graph_query E c (world s) = (Inl CypherSyntaxError, w)"
      and "s' = s\<lparr>world := w,
            events := events s @ [DbCall c (Inl CypherSyntaxError), Printed syntax_notice],
            previous_queries := previous_queries s @ [invalid_prefix @ q]\<rparr>"
  | (empty) q w where "c = PStr q"
      and "graph_query E c (world s) = (Inr [], w)"
      and "s' = s\<lparr>world := w,
            events := events s @ [DbCall c (Inr [])],
            previous_queries := previous_queries s @ [no_data_prefix @ q]\<rparr>"
  | (rows) rows w where "rows \<noteq> []"
      and "graph_query E c (world s) = (Inr rows, w)"
      and "s' = s\<lparr>world := w,
            events := events s @ [DbCall c (Inr rows)],
            bot_context := bot_context s @ [py_str_rows rows],
            used_queries := used_queries s @ [c]\<rparr>"
proof -
  obtain r w where g: "graph_query E c (world s) = (r, w)"
    by (cases "graph_query E c (world s)")
  show thesis
  proof (cases r)
    case (Inl e)
    with g assms have e: "e = CypherSyntaxError"
      by (auto simp: execute_query_def Let_def split: if_splits)
    with g Inl assms obtain q where "py_str_add invalid_prefix c = Inr q"
      by (auto simp: execute_query_def Let_def split: sum.splits)
    then obtain t where "c = PStr t"
      by (auto dest: py_str_add_Inr)
    with g Inl e assms show thesis
      using execute_query_syntax [of E t s w] by (auto intro: invalid)
  next
    case (Inr rows)
    show thesis
    proof (cases "rows = []")
      case True
      with g Inr assms obtain q where "py_str_add no_data_prefix c = Inr q"
        by (auto simp: execute_query_def Let_def py_strip_str_rows py_str_rows_empty_iff
            split: sum.splits)
      then obtain t where "c = PStr t"
        by (auto dest: py_str_add_Inr)
      with g Inr True assms show thesis
        using execute_query_empty [of E t s w] by (auto intro: empty)
    next
      case False
      with g Inr assms show thesis
        using execute_query_rows [of E c s rows w] by (auto intro: rows)
    qed
  qed
qed



section \<open>Lemmas on the retrieval round and the loop\<close>

lemma execute_queries_preserves:
  assumes "execute_queries E cs s = Inr s'" and "I s" and "kept_by_query E I"
  shows "I s'"
  using assms(1,2)
proof (induction cs arbitrary: s)
  case Nil
  then show ?case by simp
next
  case (Cons c cs)
  from Cons.prems(1) obtain u where u: "execute_query E c s = Inr u"
    and rest: "execute_queries E cs u = Inr s'"
    by (auto split: sum.splits)
  from assms(3) Cons.prems(2) u have "I u"
    unfolding kept_by_query_def by blast
  with rest show ?case by (rule Cons.IH)
qed

lemma ask_model_Inr:
  assumes "ask_model E s = Inr s'"
  shows "\<exists>a w. s' = s\<lparr>world := w, answer := a\<rparr>"
  using assms
  by (auto simp: ask_model_def generate_chat_anserw_def split: prod.splits sum.splits)

lemma ask_model_preserves:
  assumes "ask_model E s = Inr s'" and "I s" and "framed I"
  shows "I s'"
proof -
  from assms(1) obtain a w where "s' = s\<lparr>world := w, answer := a\<rparr>"
    using ask_model_Inr by blast
  with assms(2,3) show ?thesis
    unfolding framed_def by blast
qed

lemma generate_cypher_query_world:
  "\<exists>w. snd (generate_cypher_query E s) = s\<lparr>world := w\<rparr>"
  by (auto simp: generate_cypher_query_def generate_chat_anserw_def split: prod.splits)

lemma retrieval_round_Inr:
  assumes "retrieval_round E s = Inr s'"
  obtains out w cs s3 where
    "generate_cypher_query E (s\<lparr>rag_question := py_strip (last (py_split (answer s) marker))\<rparr>) =
       (Inr out, s\<lparr>rag_question := py_strip (last (py_split (answer s) marker)), world := w\<rparr>)"
    and "candidate_queries E out = Inr cs"
    and "execute_queries E cs
           (s\<lparr>rag_question := py_strip (last (py_split (answer s) marker)), world := w\<rparr>) = Inr s3"
    and "ask_model E s3 = Inr s'"
proof -
  let ?s1 = "s\<lparr>rag_question := py_strip (last (py_split (answer s) marker))\<rparr>"
  obtain r s2 where g: "generate_cypher_query E ?s1 = (r, s2)"
    by (cases "generate_cypher_query E ?s1")
  obtain w where "snd (generate_cypher_query E ?s1) = ?s1\<lparr>world := w\<rparr>"
    using generate_cypher_query_world [of E ?s1] by (elim exE)
  with g have s2: "s2 = ?s1\<lparr>world := w\<rparr>" by simp
  from assms g obtain out where r: "r = Inr out"
    by (cases r) (simp_all add: retrieval_round_def Let_def)
  from assms g r obtain cs where c: "candidate_queries E out = Inr cs"
    by (cases "candidate_queries E out") (simp_all add: retrieval_round_def Let_def)
  from assms g r c obtain s3 where x: "execute_queries E cs s2 = Inr s3"
    by (cases "execute_queries E cs s2") (simp_all add: retrieval_round_def Let_def)
  from assms g r c x have "ask_model E s3 = Inr s'"
    by (simp add: retrieval_round_def Let_def)
  with g r c x s2 show thesis
    by (auto intro: that)
qed

lemma retrieval_round_preserves:
  assumes "retrieval_round E s = Inr s'" and "I s" and "framed I" and "kept_by_query E I"
  shows "I s'"
proof -
  from assms(1) obtain out w cs s3 where
    x: "execute_queries E cs
           (s\<lparr>rag_question := py_strip (last (py_split (answer s) marker)), world := w\<rparr>) = Inr s3"
    and a: "ask_model E s3 = Inr s'"
    by (rule retrieval_round_Inr)
  from assms(2,3)
  have "I (s\<lparr>rag_question := py_strip (last (py_split (answer s) marker)), world := w\<rparr>)"
    unfolding framed_def by blast
  with x have "I s3"
    using assms(4) by (rule execute_queries_preserves)
  with a show ?thesis
    using assms(3) by (rule ask_model_preserves)
qed

lemma retrieval_loop_result:
  assumes "retrieval_loop E s = Some y" and "y = Inr s'"
    and "I s" and "framed I" and "kept_by_query E I"
  shows "I s' \<and> \<not> has_marker (answer s')"
  using assms
proof (induction E s y rule: retrieval_loop.raw_induct [rotated, consumes 1])
  case (1 loop E s y)
  note eq = \<open>y = Inr s'\<close> and inv = \<open>I s\<close>
    and fr = \<open>framed I\<close> and kept = \<open>kept_by_query E I\<close>
  show ?case
  proof (cases "has_marker (answer s)")
    case False
    with "1.hyps" eq inv show ?thesis by simp
  next
    case True
    with "1.hyps" eq obtain u where u: "retrieval_round E s = Inr u"
      and l: "loop E u = Some y"
      by (auto split: sum.splits)
    from u inv fr kept have "I u"
      by (rule retrieval_round_preserves)
    with l eq fr kept show ?thesis
      by (intro "1.IH")
  qed
qed

lemma answer_question_Inr:
  assumes "answer_question E user_q s = Some (Inr s')"
  obtains s1 s2 where "ask_model E (begin_question user_q s) = Inr s1"
    and "retrieval_loop E s1 = Some (Inr s2)" and "s' = finish_question s2"
  using assms
  by (auto simp: answer_question_def split: sum.splits option.splits)

lemma answer_question_result:
  assumes "answer_question E user_q s = Some (Inr s')"
    and "I (begin_question user_q s)" and "framed I" and "kept_by_query E I"
  obtains s2 where "s' = finish_question s2" and "I s2" and "\<not> has_marker (answer s2)"
proof -
  from assms(1) obtain s1 s2 where a: "ask_model E (begin_question user_q s) = Inr s1"
    and l: "retrieval_loop E s1 = Some (Inr s2)" and f: "s' = finish_question s2"
    by (rule answer_question_Inr)
  from a assms(2,3) have "I s1"
    by (rule ask_model_preserves)
  with l have "I s2 \<and> \<not> has_marker (answer s2)"
    using assms(3,4) by (rule retrieval_loop_result [OF _ refl])
  with f show thesis
    by (auto intro: that)
qed

section \<open>Runs of the scripted environment\<close>

lemma scripted_run:
  "answer_question scripted_env ''Which movie?'' (fresh_state run_script) = Some (Inr run_final)"
  by code_simp

section \<open>The claims\<close>

subsection \<open>C1: the outcome of one query\<close>








subsection \<open>C3: the context and the succeeded queries stay paired\<close>

lemma scripted_round: "retrieval_round scripted_env run_asked = Inr run_looped"
  by code_simp

lemma scripted_loop: "retrieval_loop scripted_env run_asked = Some (Inr run_looped)"
  by code_simp

lemma scripted_finish: "finish_question run_looped = run_final"
  by code_simp

lemma paired_framed: "framed paired"
  by (simp add: framed_def paired_def)

lemma execute_query_lists:
  assumes "execute_query E c s = Inr s'"
  shows "(bot_context s' = bot_context s \<and> used_queries s' = used_queries s) \<or>
         (\<exists>x. bot_context s' = bot_context s @ [x] \<and> used_queries s' = used_queries s @ [c])"
  using assms by (cases rule: execute_query_Inr_cases) simp_all

lemma paired_kept: "kept_by_query E paired"
  unfolding kept_by_query_def paired_def
  by (auto dest: execute_query_lists)

text \<open>
  C3. The context and the succeeded queries have the same length after the assignments
  made when a question arrives, and the equality is kept by each pass of the loop body
  (which extends both lists by one element, or neither), by the whole \<^verbatim>\<open>for\<close> loop, by
  each retrieval round and by the \<^verbatim>\<open>while\<close> loop; it holds when the question has been
  answered.
\<close>

theorem paired_invariant:
  "paired (begin_question user_q s0) \<and>
   (paired s \<and> execute_query E c s = Inr s1 \<longrightarrow>
      paired s1 \<and>
      ((bot_context s1 = bot_context s \<and> used_queries s1 = used_queries s) \<or>
       (\<exists>x. bot_context s1 = bot_context s @ [x] \<and> used_queries s1 = used_queries s @ [c]))) \<and>
   (paired s \<and> execute_queries E cs s = Inr s2 \<longrightarrow> paired s2) \<and>
   (paired s \<and> retrieval_round E s = Inr s3 \<longrightarrow> paired s3) \<and>
   (paired s \<and> retrieval_loop E s = Some (Inr s4) \<longrightarrow> paired s4) \<and>
   (answer_question E user_q s0 = Some (Inr s5) \<longrightarrow> paired s5)"
proof (intro conjI impI)
  show start: "paired (begin_question user_q s0)"
    by (simp add: paired_def begin_question_def)
  {
    assume a: "paired s \<and> execute_query E c s = Inr s1"
    then show "paired s1"
      using paired_kept [of E] unfolding kept_by_query_def by blast
    from a show "(bot_context s1 = bot_context s \<and> used_queries s1 = used_queries s) \<or>
       (\<exists>x. bot_context s1 = bot_context s @ [x] \<and> used_queries s1 = used_queries s @ [c])"
      using execute_query_lists [of E c s s1] by (elim conjE) simp
  }
  {
    assume "paired s \<and> execute_queries E cs s = Inr s2"
    then show "paired s2"
      using execute_queries_preserves [of E cs s s2 paired] paired_kept by blast
  }
  {
    assume "paired s \<and> retrieval_round E s = Inr s3"
    then show "paired s3"
      using retrieval_round_preserves [of E s s3 paired] paired_framed paired_kept by blast
  }
  {
    assume "paired s \<and> retrieval_loop E s = Some (Inr s4)"
    then show "paired s4"
      using retrieval_loop_result [of E s "Inr s4" s4 paired] paired_framed paired_kept
      by blast
  }
  {
    assume "answer_question E user_q s0 = Some (Inr s5)"
    from this start paired_framed paired_kept
    obtain u where "s5 = finish_question u" and "paired u"
      by (rule answer_question_result)
    then show "paired s5"
      by (simp add: paired_def finish_question_def save_chat_history_def)
  }
qed

theorem paired_invariant_witness:
  "paired (begin_question ''Which movie?'' (fresh_state run_script)) \<and>
   paired (fresh_state [] :: string list bot_state) \<and>
   (\<exists>t. execute_query scripted_env (PStr query_found) (fresh_state []) = Inr t \<and> paired t \<and>
        length (bot_context t) = 1) \<and>
   (\<exists>t. execute_queries scripted_env [PStr query_found, PStr query_typo, PStr query_none]
          (fresh_state []) = Inr t \<and> paired t) \<and>
   paired run_asked \<and>
   retrieval_round scripted_env run_asked = Inr run_looped \<and>
   retrieval_loop scripted_env run_asked = Some (Inr run_looped) \<and>
   paired run_looped \<and>
   answer_question scripted_env ''Which movie?'' (fresh_state run_script) = Some (Inr run_final) \<and>
   paired run_final"
proof -
  let ?s = "fresh_state [] :: string list bot_state"
  note inv = paired_invariant
  have p0: "paired ?s"
    by (simp add: paired_def fresh_state_def)
  have w1: "paired (begin_question ''Which movie?'' (fresh_state run_script))"
    using inv [THEN conjunct1] .
  have "\<not> isl (execute_query scripted_env (PStr query_found) ?s)"
    by code_simp
  then obtain t where t: "execute_query scripted_env (PStr query_found) ?s = Inr t"
    by (cases "execute_query scripted_env (PStr query_found) ?s") simp_all
  have c: "length (bot_context (projr (execute_query scripted_env (PStr query_found) ?s))) = 1"
    by code_simp
  from inv [THEN conjunct2, THEN conjunct1, THEN mp, OF conjI [OF p0 t]] t c
  have w2: "\<exists>t. execute_query scripted_env (PStr query_found) ?s = Inr t \<and> paired t \<and>
        length (bot_context t) = 1"
    by simp
  have "\<not> isl (execute_queries scripted_env [PStr query_found, PStr query_typo, PStr query_none] ?s)"
    by code_simp
  then obtain u where
    u: "execute_queries scripted_env [PStr query_found, PStr query_typo, PStr query_none] ?s = Inr u"
    by (cases "execute_queries scripted_env [PStr query_found, PStr query_typo, PStr query_none] ?s")
      simp_all
  from inv [THEN conjunct2, THEN conjunct2, THEN conjunct1, THEN mp, OF conjI [OF p0 u]] u
  have w3: "\<exists>t. execute_queries scripted_env [PStr query_found, PStr query_typo, PStr query_none]
          ?s = Inr t \<and> paired t"
    by simp
  have p1: "paired run_asked"
    by (simp add: paired_def run_asked_def)
  have w4: "paired run_looped"
    using inv [THEN conjunct2, THEN conjunct2, THEN conjunct2, THEN conjunct1, THEN mp,
        OF conjI [OF p1 scripted_round]] .
  have w5: "paired run_looped"
    using inv [THEN conjunct2, THEN conjunct2, THEN conjunct2, THEN conjunct2, THEN conjunct1,
        THEN mp, OF conjI [OF p1 scripted_loop]] .
  have w6: "paired run_final"
    using inv [THEN conjunct2, THEN conjunct2, THEN conjunct2, THEN conjunct2, THEN conjunct2,
        THEN mp, OF scripted_run] .
  from p0 w1 w2 w3 p1 w5 w6 scripted_round scripted_loop scripted_run show ?thesis
    by (intro conjI) assumption+
qed

subsection \<open>C5: every candidate is passed to the database\<close>

lemma db_calls_append: "db_calls (xs @ ys) = db_calls xs @ db_calls ys"
  by (induction xs rule: db_calls.induct) simp_all

lemma execute_query_calls:
  assumes "execute_query E c s = Inr s'"
  shows "\<exists>r. db_calls (events s') = db_calls (events s) @ [(c, r)]"
  using assms by (cases rule: execute_query_Inr_cases) (simp_all add: db_calls_append)

lemma execute_queries_calls:
  assumes "execute_queries E cs s = Inr s'"
  shows "\<exists>new. db_calls (events s') = db_calls (events s) @ new \<and> map fst new = cs"
  using assms
proof (induction cs arbitrary: s)
  case Nil
  then show ?case by simp
next
  case (Cons c cs)
  from Cons.prems obtain u where u: "execute_query E c s = Inr u"
    and rest: "execute_queries E cs u = Inr s'"
    by (auto split: sum.splits)
  from u have "\<exists>r. db_calls (events u) = db_calls (events s) @ [(c, r)]"
    by (rule execute_query_calls)
  then obtain r where r: "db_calls (events u) = db_calls (events s) @ [(c, r)]"
    by (elim exE)
  from rest have "\<exists>new. db_calls (events s') = db_calls (events u) @ new \<and> map fst new = cs"
    by (rule Cons.IH)
  then obtain new where "db_calls (events s') = db_calls (events u) @ new"
    and "map fst new = cs"
    by (elim exE conjE)
  with r have "db_calls (events s') = db_calls (events s) @ ((c, r) # new) \<and>
      map fst ((c, r) # new) = c # cs"
    by simp
  then show ?case by (rule exI)
qed

lemma execute_queries_submitted:
  assumes "execute_queries E cs s = Inr s'"
  shows "submitted (events s') = submitted (events s) @ cs"
proof -
  from assms have "\<exists>new. db_calls (events s') = db_calls (events s) @ new \<and> map fst new = cs"
    by (rule execute_queries_calls)
  then obtain new where "db_calls (events s') = db_calls (events s) @ new"
    and "map fst new = cs"
    by (elim exE conjE)
  then show ?thesis
    by (simp add: submitted_def)
qed



lemma ask_model_events: "ask_model E s = Inr s' \<Longrightarrow> events s' = events s"
  by (auto dest: ask_model_Inr)

lemma retrieval_round_submitted:
  assumes "retrieval_round E s = Inr s'"
  shows "\<exists>out w cs.
     generate_cypher_query E (s\<lparr>rag_question := py_strip (last (py_split (answer s) marker))\<rparr>) =
       (Inr out, s\<lparr>rag_question := py_strip (last (py_split (answer s) marker)), world := w\<rparr>) \<and>
     candidate_queries E out = Inr cs \<and>
     submitted (events s') = submitted (events s) @ cs"
proof -
  from assms obtain out w cs s3 where
    g: "generate_cypher_query E (s\<lparr>rag_question := py_strip (last (py_split (answer s) marker))\<rparr>) =
       (Inr out, s\<lparr>rag_question := py_strip (last (py_split (answer s) marker)), world := w\<rparr>)"
    and c: "candidate_queries E out = Inr cs"
    and x: "execute_queries E cs
           (s\<lparr>rag_question := py_strip (last (py_split (answer s) marker)), world := w\<rparr>) = Inr s3"
    and a: "ask_model E s3 = Inr s'"
    by (rule retrieval_round_Inr)
  from x have "submitted (events s3) =
      submitted (events (s\<lparr>rag_question := py_strip (last (py_split (answer s) marker)),
        world := w\<rparr>)) @ cs"
    by (rule execute_queries_submitted)
  then have "submitted (events s3) = submitted (events s) @ cs"
    by simp
  with a have "submitted (events s') = submitted (events s) @ cs"
    by (simp add: ask_model_events)
  with g c show ?thesis
    by (intro exI conjI)
qed





subsection \<open>C9: candidates that failed and are passed again\<close>

lemma no_resubmission_distinct: "distinct (map fst xs) \<Longrightarrow> no_resubmission xs"
  by (induction xs rule: no_resubmission.induct) simp_all

lemma execute_queries_new_calls:
  assumes "execute_queries E cs s = Inr s'"
  shows "map fst (drop (length (db_calls (events s))) (db_calls (events s'))) = cs"
proof -
  from assms have "\<exists>new. db_calls (events s') = db_calls (events s) @ new \<and> map fst new = cs"
    by (rule execute_queries_calls)
  then obtain new where "db_calls (events s') = db_calls (events s) @ new"
    and "map fst new = cs"
    by (elim exE conjE)
  then show ?thesis by simp
qed

text \<open>
  C9, as the code has it. The loop does not compare a candidate with the ones before it:
  when the candidate list of a round holds no value twice, no candidate is passed to the
  database again after a call with it has failed in that round.
\<close>

theorem no_resubmission_when_distinct:
  "distinct cs \<and> execute_queries E cs s = Inr t \<longrightarrow>
     no_resubmission (drop (length (db_calls (events s))) (db_calls (events t)))"
proof
  assume a: "distinct cs \<and> execute_queries E cs s = Inr t"
  then have "execute_queries E cs s = Inr t" ..
  then have "map fst (drop (length (db_calls (events s))) (db_calls (events t))) = cs"
    by (rule execute_queries_new_calls)
  with a have "distinct (map fst (drop (length (db_calls (events s))) (db_calls (events t))))"
    by simp
  then show "no_resubmission (drop (length (db_calls (events s))) (db_calls (events t)))"
    by (rule no_resubmission_distinct)
qed

theorem no_resubmission_when_distinct_witness:
  "distinct [PStr query_found, PStr query_typo, PStr query_none] \<and>
   (\<exists>t. execute_queries scripted_env [PStr query_found, PStr query_typo, PStr query_none]
          (fresh_state []) = Inr t \<and>
        no_resubmission (drop (length (db_calls (events (fresh_state [] :: string list bot_state))))
          (db_calls (events t))))"
proof -
  let ?s = "fresh_state [] :: string list bot_state"
  let ?cs = "[PStr query_found, PStr query_typo, PStr query_none]"
  have d: "distinct ?cs"
    by (simp add: query_found_def query_typo_def query_none_def)
  have "\<not> isl (execute_queries scripted_env ?cs ?s)"
    by code_simp
  then obtain t where t: "execute_queries scripted_env ?cs ?s = Inr t"
    by (cases "execute_queries scripted_env ?cs ?s") simp_all
  from no_resubmission_when_distinct [THEN mp, OF conjI [OF d t]] t
  have "\<exists>t. execute_queries scripted_env ?cs ?s = Inr t \<and>
        no_resubmission (drop (length (db_calls (events ?s))) (db_calls (events t)))"
    by (intro exI conjI)
  with d show ?thesis
    by (intro conjI)
qed

theorem resubmission_counterexample:
  "candidate_queries scripted_env twice_text = Inr [PStr query_none, PStr query_none] \<and>
   execute_queries scripted_env [PStr query_none, PStr query_none] (fresh_state []) =
     Inr twice_state \<and>
   db_calls (events twice_state) = [(PStr query_none, Inr []), (PStr query_none, Inr [])] \<and>
   failed (Inr []) \<and>
   \<not> no_resubmission (db_calls (events twice_state))"
proof (intro conjI)
  show "candidate_queries scripted_env twice_text = Inr [PStr query_none, PStr query_none]"
    by code_simp
  show "execute_queries scripted_env [PStr query_none, PStr query_none] (fresh_state []) =
     Inr twice_state"
    by code_simp
  show "db_calls (events twice_state) = [(PStr query_none, Inr []), (PStr query_none, Inr [])]"
    by (simp add: twice_state_def)
  show "failed (Inr [])"
    by (simp add: failed_def)
  show "\<not> no_resubmission (db_calls (events twice_state))"
    by (simp add: twice_state_def failed_def)
qed

subsection \<open>C10: when the text of the model becomes a one-element list\<close>

lemma candidate_queries_fallback:
  "literal_eval E out = Inl SyntaxError \<Longrightarrow> candidate_queries E out = Inr [PStr out]"
  by (simp add: candidate_queries_def parse_query_list_def)

lemma candidate_queries_raises:
  "literal_eval E out = Inl e \<Longrightarrow> e \<noteq> SyntaxError \<Longrightarrow> candidate_queries E out = Inl e"
  by (simp add: candidate_queries_def parse_query_list_def)

lemma candidate_queries_value:
  "literal_eval E out = Inr v \<Longrightarrow> candidate_queries E out = py_iter v"
  by (simp add: candidate_queries_def parse_query_list_def)

text \<open>
  C10. The list \<open>[out]\<close> replaces the model's text \<open>out\<close> exactly when
  \<^verbatim>\<open>ast.literal_eval\<close> raises \<open>SyntaxError\<close>: any other exception leaves the method,
  and a value that was parsed is iterated as it is. When the value is a str, the loop
  runs over its characters, and the round passes each character to the database as a
  query of its own.
\<close>

theorem fallback_only_on_syntax_error:
  "(literal_eval E out = Inl SyntaxError \<longrightarrow> candidate_queries E out = Inr [PStr out]) \<and>
   (literal_eval E out = Inl e \<and> e \<noteq> SyntaxError \<longrightarrow> candidate_queries E out = Inl e) \<and>
   (literal_eval E out = Inr v \<longrightarrow> candidate_queries E out = py_iter v) \<and>
   (literal_eval E out = Inr (PStr t) \<longrightarrow>
      candidate_queries E out = Inr (map (\<lambda>c. PStr [c]) t)) \<and>
   (literal_eval E out = Inr (PStr t) \<and>
    fst (generate_cypher_query E
      (s\<lparr>rag_question := py_strip (last (py_split (answer s) marker))\<rparr>)) = Inr out \<and>
    retrieval_round E s = Inr s' \<longrightarrow>
      submitted (events s') = submitted (events s) @ map (\<lambda>c. PStr [c]) t)"
proof (intro conjI impI)
  assume "literal_eval E out = Inl SyntaxError"
  then show "candidate_queries E out = Inr [PStr out]"
    by (rule candidate_queries_fallback)
next
  assume "literal_eval E out = Inl e \<and> e \<noteq> SyntaxError"
  then show "candidate_queries E out = Inl e"
    by (simp add: candidate_queries_raises)
next
  assume "literal_eval E out = Inr v"
  then show "candidate_queries E out = py_iter v"
    by (rule candidate_queries_value)
next
  assume "literal_eval E out = Inr (PStr t)"
  then show "candidate_queries E out = Inr (map (\<lambda>c. PStr [c]) t)"
    by (simp add: candidate_queries_value)
next
  let ?s1 = "s\<lparr>rag_question := py_strip (last (py_split (answer s) marker))\<rparr>"
  assume a: "literal_eval E out = Inr (PStr t) \<and>
    fst (generate_cypher_query E ?s1) = Inr out \<and> retrieval_round E s = Inr s'"
  then have "retrieval_round E s = Inr s'" by simp
  then have "\<exists>out' w cs.
     generate_cypher_query E ?s1 = (Inr out', ?s1\<lparr>world := w\<rparr>) \<and>
     candidate_queries E out' = Inr cs \<and>
     submitted (events s') = submitted (events s) @ cs"
    using retrieval_round_submitted [of E s s'] by simp
  then obtain out' w cs where g: "generate_cypher_query E ?s1 = (Inr out', ?s1\<lparr>world := w\<rparr>)"
    and c: "candidate_queries E out' = Inr cs"
    and sub: "submitted (events s') = submitted (events s) @ cs"
    by (elim exE conjE)
  from a g have "out' = out" by simp
  with a c have "cs = map (\<lambda>c. PStr [c]) t"
    by (simp add: candidate_queries_value)
  with sub show "submitted (events s') = submitted (events s) @ map (\<lambda>c. PStr [c]) t"
    by simp
qed

theorem fallback_only_on_syntax_error_witness:
  "literal_eval scripted_env query_none = Inl SyntaxError \<and>
   candidate_queries scripted_env query_none = Inr [PStr query_none] \<and>
   literal_eval scripted_env ''x'' = Inl ValueError \<and>
   candidate_queries scripted_env ''x'' = Inl ValueError \<and>
   literal_eval scripted_env list_text =
     Inr (PList [PStr query_found, PStr query_typo, PStr query_none]) \<and>
   candidate_queries scripted_env list_text =
     Inr [PStr query_found, PStr query_typo, PStr query_none] \<and>
   literal_eval scripted_env quoted_text = Inr (PStr ''ab'') \<and>
   candidate_queries scripted_env quoted_text = Inr [PStr ''a'', PStr ''b''] \<and>
   (\<exists>s'. retrieval_round scripted_env (run_asked\<lparr>world := [quoted_text, ''Heat'']\<rparr>) = Inr s' \<and>
         submitted (events s') = [PStr ''a'', PStr ''b''])"
proof -
  note claim = fallback_only_on_syntax_error
  let ?s = "run_asked\<lparr>world := [quoted_text, ''Heat'']\<rparr>"
  have h1: "literal_eval scripted_env query_none = Inl SyntaxError"
    by code_simp
  have h2: "literal_eval scripted_env ''x'' = Inl ValueError \<and> ValueError \<noteq> SyntaxError"
    by code_simp
  have h3: "literal_eval scripted_env list_text =
      Inr (PList [PStr query_found, PStr query_typo, PStr query_none])"
    by code_simp
  have h4: "literal_eval scripted_env quoted_text = Inr (PStr ''ab'')"
    by code_simp
  have g: "fst (generate_cypher_query scripted_env
      (?s\<lparr>rag_question := py_strip (last (py_split (answer ?s) marker))\<rparr>)) = Inr quoted_text"
    by code_simp
  have "\<not> isl (retrieval_round scripted_env ?s)"
    by code_simp
  then obtain s' where r: "retrieval_round scripted_env ?s = Inr s'"
    by (cases "retrieval_round scripted_env ?s") simp_all
  have c1: "candidate_queries scripted_env query_none = Inr [PStr query_none]"
    using claim [THEN conjunct1, THEN mp, OF h1] .
  have c2: "candidate_queries scripted_env ''x'' = Inl ValueError"
    using claim [THEN conjunct2, THEN conjunct1, THEN mp, OF h2] .
  have c3: "candidate_queries scripted_env list_text =
      Inr [PStr query_found, PStr query_typo, PStr query_none]"
    using claim [THEN conjunct2, THEN conjunct2, THEN conjunct1, THEN mp, OF h3] by simp
  have c4: "candidate_queries scripted_env quoted_text = Inr [PStr ''a'', PStr ''b'']"
    using claim [THEN conjunct2, THEN conjunct2, THEN conjunct2, THEN conjunct1, THEN mp, OF h4]
    by simp
  have "submitted (events s') = submitted (events ?s) @ map (\<lambda>c. PStr [c]) ''ab''"
    using claim [THEN conjunct2, THEN conjunct2, THEN conjunct2, THEN conjunct2, THEN mp,
        OF conjI [OF h4 conjI [OF g r]]] .
  then have "submitted (events s') = [PStr ''a'', PStr ''b'']"
    by (simp add: run_asked_def submitted_def)
  with r have c5: "\<exists>s'. retrieval_round scripted_env ?s = Inr s' \<and>
      submitted (events s') = [PStr ''a'', PStr ''b'']"
    by (intro exI conjI)
  from h2 have h2': "literal_eval scripted_env ''x'' = Inl ValueError" ..
  from h1 c1 h2' c2 h3 c3 h4 c4 c5 show ?thesis
    by (intro conjI)
qed

subsection \<open>C2: exceptions of the parser that are not caught\<close>

text \<open>
  C2. \<^verbatim>\<open>ast.literal_eval("x")\<close> raises \<open>ValueError\<close> (a name is no literal). The handler
  of lines 157 and 158 does not catch it: the text \<open>x\<close> is not turned into the list of
  one query, and the exception ends the processing of the question.
\<close>

theorem value_error_leaves_chat:
  "literal_eval scripted_env ''x'' = Inl ValueError \<and>
   parse_query_list scripted_env ''x'' = Inl ValueError \<and>
   parse_query_list scripted_env ''x'' \<noteq> Inr (PList [PStr ''x'']) \<and>
   answer_question scripted_env ''Which movie?''
     (fresh_state [''NO_CONTEXT Which movie is stored?'', ''x'', ''Heat'']) =
     Some (Inl ValueError)"
  by code_simp

subsection \<open>C4: a first answer without the marker\<close>

lemma retrieval_loop_no_marker:
  "\<not> has_marker (answer s) \<Longrightarrow> retrieval_loop E s = Some (Inr s)"
  by (subst retrieval_loop.simps) simp

text \<open>
  C4. When the first answer of the model has no marker, the question is answered without
  a call of the database: the answer printed and the assistant turn saved are that first
  answer, and the user turn is saved with an empty context.
\<close>

theorem first_answer_without_marker:
  "chat_completion E ''You are movie chatbot''
      (base_template E user_q [] (chat_history s)) (world s) = (Inr a, w) \<and>
   \<not> has_marker a \<longrightarrow>
     (\<exists>s'. answer_question E user_q s = Some (Inr s') \<and>
           answer s' = a \<and>
           events s' = events s @ [Printed (''Bot: '' @ a @ [CHR 0x0A])] \<and>
           submitted (events s') = submitted (events s) \<and>
           chat_history s' = chat_history s @ [User user_q [], Assistant a])"
proof
  assume h: "chat_completion E ''You are movie chatbot''
      (base_template E user_q [] (chat_history s)) (world s) = (Inr a, w) \<and> \<not> has_marker a"
  let ?s1 = "(begin_question user_q s)\<lparr>world := w, answer := a\<rparr>"
  from h have ask: "ask_model E (begin_question user_q s) = Inr ?s1"
    by (simp add: ask_model_def generate_chat_anserw_def begin_question_def)
  from h have "\<not> has_marker (answer ?s1)"
    by simp
  then have "retrieval_loop E ?s1 = Some (Inr ?s1)"
    by (rule retrieval_loop_no_marker)
  with ask have run: "answer_question E user_q s = Some (Inr (finish_question ?s1))"
    by (simp add: answer_question_def)
  have "answer (finish_question ?s1) = a"
    and "events (finish_question ?s1) = events s @ [Printed (''Bot: '' @ a @ [CHR 0x0A])]"
    and "submitted (events (finish_question ?s1)) = submitted (events s)"
    and "chat_history (finish_question ?s1) = chat_history s @ [User user_q [], Assistant a]"
    by (simp_all add: finish_question_def save_chat_history_def begin_question_def
        submitted_def db_calls_append)
  with run show "\<exists>s'. answer_question E user_q s = Some (Inr s') \<and>
           answer s' = a \<and>
           events s' = events s @ [Printed (''Bot: '' @ a @ [CHR 0x0A])] \<and>
           submitted (events s') = submitted (events s) \<and>
           chat_history s' = chat_history s @ [User user_q [], Assistant a]"
    by (intro exI conjI)
qed

theorem first_answer_without_marker_witness:
  "chat_completion scripted_env ''You are movie chatbot''
      (base_template scripted_env ''Which movie?'' [] (chat_history (fresh_state [''Heat''])))
      (world (fresh_state [''Heat''])) = (Inr ''Heat'', []) \<and>
   \<not> has_marker ''Heat'' \<and>
   (\<exists>s'. answer_question scripted_env ''Which movie?'' (fresh_state [''Heat'']) = Some (Inr s') \<and>
         answer s' = ''Heat'' \<and>
         events s' = [Printed (''Bot: Heat'' @ [CHR 0x0A])] \<and>
         submitted (events s') = [] \<and>
         chat_history s' = [User ''Which movie?'' [], Assistant ''Heat''])"
proof -
  let ?s = "fresh_state [''Heat''] :: string list bot_state"
  have h: "chat_completion scripted_env ''You are movie chatbot''
      (base_template scripted_env ''Which movie?'' [] (chat_history ?s)) (world ?s) =
      (Inr ''Heat'', []) \<and> \<not> has_marker ''Heat''"
    by (simp add: scripted_env_def scripted_llm_def fresh_state_def has_marker_def marker_def)
  from first_answer_without_marker [THEN mp, OF h]
  have "\<exists>s'. answer_question scripted_env ''Which movie?'' ?s = Some (Inr s') \<and>
         answer s' = ''Heat'' \<and>
         events s' = [Printed (''Bot: Heat'' @ [CHR 0x0A])] \<and>
         submitted (events s') = [] \<and>
         chat_history s' = [User ''Which movie?'' [], Assistant ''Heat'']"
    by (simp add: fresh_state_def submitted_def)
  with h show ?thesis
    by (intro conjI) simp_all
qed

subsection \<open>C6: how the loop ends, and when it does not\<close>

lemma insisting_round:
  "\<exists>s'. retrieval_round insisting_env s = Inr s' \<and> has_marker (answer s')"
  by (simp add: retrieval_round_def Let_def generate_cypher_query_def generate_chat_anserw_def
      insisting_env_def insisting_llm_def candidate_queries_def parse_query_list_def
      table_literal_eval_def table_graph_query_def execute_query_def ask_model_def
      py_strip_str_rows py_str_rows_empty_iff
      list_text_def twice_text_def quoted_text_def query_none_def query_found_def dq_def
      has_marker_def marker_def)

lemma insisting_never_returns:
  assumes "retrieval_loop E s = Some y" and "E = insisting_env" and "has_marker (answer s)"
  shows False
  using assms
proof (induction E s y rule: retrieval_loop.raw_induct [rotated, consumes 1])
  case (1 loop E s y)
  note env = \<open>E = insisting_env\<close> and mark = \<open>has_marker (answer s)\<close>
  from env obtain u where u: "retrieval_round E s = Inr u" and m: "has_marker (answer u)"
    using insisting_round [of s] by (elim exE conjE) simp
  with "1.hyps" mark have "loop E u = Some y"
    by simp
  from this env m show ?case
    by (rule "1.IH")
qed

text \<open>
  C6. The loop is left by its condition only in a state whose answer has no marker, and
  it is not entered when the answer has none. Nothing bounds the number of rounds: with
  a model whose every answer holds the marker (and whose queries find nothing) the loop
  never returns.
\<close>

theorem loop_exit_and_divergence:
  "(retrieval_loop E s = Some (Inr t) \<longrightarrow> \<not> has_marker (answer t)) \<and>
   (\<not> has_marker (answer s) \<longrightarrow> retrieval_loop E s = Some (Inr s)) \<and>
   fst (chat_completion insisting_env ''You are movie chatbot'' p w) =
     Inr ''NO_CONTEXT Which movies exist?'' \<and>
   has_marker ''NO_CONTEXT Which movies exist?'' \<and>
   (has_marker (answer u) \<longrightarrow> retrieval_loop insisting_env u = None)"
proof (intro conjI impI)
  assume "retrieval_loop E s = Some (Inr t)"
  then have "True \<and> \<not> has_marker (answer t)"
    by (rule retrieval_loop_result [where I = "\<lambda>u. True"]) (simp_all add: framed_def kept_by_query_def)
  then show "\<not> has_marker (answer t)" ..
next
  assume "\<not> has_marker (answer s)"
  then show "retrieval_loop E s = Some (Inr s)"
    by (rule retrieval_loop_no_marker)
next
  show "fst (chat_completion insisting_env ''You are movie chatbot'' p w) =
     Inr ''NO_CONTEXT Which movies exist?''"
    by (simp add: insisting_env_def insisting_llm_def)
next
  show "has_marker ''NO_CONTEXT Which movies exist?''"
    by (simp add: has_marker_def marker_def)
next
  assume m: "has_marker (answer u)"
  show "retrieval_loop insisting_env u = None"
  proof (cases "retrieval_loop insisting_env u")
    case None
    then show ?thesis .
  next
    case (Some y)
    from this refl m have False
      by (rule insisting_never_returns)
    then show ?thesis ..
  qed
qed

theorem loop_exit_and_divergence_witness:
  "retrieval_loop scripted_env run_asked = Some (Inr run_looped) \<and>
   \<not> has_marker (answer run_looped) \<and>
   retrieval_loop scripted_env run_looped = Some (Inr run_looped) \<and>
   has_marker (answer ((fresh_state ())\<lparr>answer := ''NO_CONTEXT Which movies exist?''\<rparr>)) \<and>
   retrieval_loop insisting_env ((fresh_state ())\<lparr>answer := ''NO_CONTEXT Which movies exist?''\<rparr>) =
     None"
proof -
  note claim = loop_exit_and_divergence
  let ?u = "(fresh_state ())\<lparr>answer := ''NO_CONTEXT Which movies exist?''\<rparr>"
  have w1: "\<not> has_marker (answer run_looped)"
    using claim [THEN conjunct1, THEN mp, OF scripted_loop] .
  have w2: "retrieval_loop scripted_env run_looped = Some (Inr run_looped)"
    using claim [THEN conjunct2, THEN conjunct1, THEN mp, OF w1] .
  have m: "has_marker (answer ?u)"
    by (simp add: has_marker_def marker_def)
  have w3: "retrieval_loop insisting_env ?u = None"
    using claim [THEN conjunct2, THEN conjunct2, THEN conjunct2, THEN conjunct2, THEN mp, OF m] .
  from scripted_loop w1 w2 m w3 show ?thesis
    by (intro conjI)
qed

subsection \<open>C7: what is reset when a question arrives\<close>

lemma retrieval_round_rag_question:
  "retrieval_round E (s\<lparr>rag_question := r\<rparr>) = retrieval_round E s"
  by (simp add: retrieval_round_def)

text \<open>
  C7, as the code has it. When a question arrives, \<^verbatim>\<open>_question\<close> is set to it and the
  context, the failed queries and the succeeded queries are emptied, so that the answer
  to the question does not depend on what these four fields held before.
  \<^verbatim>\<open>_rag_question\<close> is not assigned there and keeps its value; a retrieval round
  overwrites it before reading it, so the round does not depend on that value either.
\<close>

theorem fields_reset_for_question:
  "question (begin_question user_q s) = user_q \<and>
   bot_context (begin_question user_q s) = [] \<and>
   previous_queries (begin_question user_q s) = [] \<and>
   used_queries (begin_question user_q s) = [] \<and>
   rag_question (begin_question user_q s) = rag_question s \<and>
   answer_question E user_q
     (s\<lparr>question := q0, bot_context := c0, previous_queries := p0, used_queries := u0\<rparr>) =
     answer_question E user_q s \<and>
   retrieval_round E (s\<lparr>rag_question := r\<rparr>) = retrieval_round E s"
  by (simp add: begin_question_def answer_question_def retrieval_round_rag_question)

theorem rag_question_not_reset_counterexample:
  "answer_question scripted_env ''Which movie?''
     (fresh_state (run_script @ [''You are welcome''])) = Some (Inr turn_one) \<and>
   rag_question turn_one = ''Which movie is stored?'' \<and>
   rag_question (begin_question ''Thanks'' turn_one) = ''Which movie is stored?'' \<and>
   answer_question scripted_env ''Thanks'' turn_one = Some (Inr turn_two) \<and>
   rag_question turn_two = ''Which movie is stored?'' \<and>
   rag_question turn_two \<noteq> []"
proof (intro conjI)
  show "answer_question scripted_env ''Which movie?''
     (fresh_state (run_script @ [''You are welcome''])) = Some (Inr turn_one)"
    by code_simp
  show "rag_question turn_one = ''Which movie is stored?''"
    by (simp add: turn_one_def run_final_def)
  show "rag_question (begin_question ''Thanks'' turn_one) = ''Which movie is stored?''"
    by (simp add: begin_question_def turn_one_def run_final_def)
  show "answer_question scripted_env ''Thanks'' turn_one = Some (Inr turn_two)"
    by code_simp
  show "rag_question turn_two = ''Which movie is stored?''"
    and "rag_question turn_two \<noteq> []"
    by (simp_all add: turn_two_def)
qed

subsection \<open>C8: a question after a restart\<close>

lemma history_framed: "framed (\<lambda>u. chat_history u = h \<and> question u = q)"
  by (simp add: framed_def)

lemma history_kept: "kept_by_query E (\<lambda>u. chat_history u = h \<and> question u = q)"
  unfolding kept_by_query_def
proof (intro allI impI)
  fix u :: "'a bot_state" and c v
  assume inv: "chat_history u = h \<and> question u = q"
    and run: "execute_query E c u = Inr v"
  from run inv show "chat_history v = h \<and> question v = q"
    by (cases rule: execute_query_Inr_cases) simp_all
qed

lemma answer_question_history:
  assumes "answer_question E user_q s = Some (Inr t)"
  shows "chat_history t = chat_history s @ [User user_q (bot_context t), Assistant (answer t)]"
proof -
  have start: "chat_history (begin_question user_q s) = chat_history s \<and>
      question (begin_question user_q s) = user_q"
    by (simp add: begin_question_def)
  from assms start history_framed history_kept
  obtain u where "t = finish_question u"
    and "chat_history u = chat_history s \<and> question u = user_q"
    by (rule answer_question_result)
  then show ?thesis
    by (simp add: finish_question_def save_chat_history_def)
qed

text \<open>
  C8. \<^verbatim>\<open>restart\<close> empties the history and the fields of the retrieval state, and a
  second \<^verbatim>\<open>restart\<close> changes nothing. A question answered right after it leaves a
  history of exactly one exchange: the user turn of that question and the assistant turn
  of its answer, whatever the history held before.
\<close>

theorem restart_then_question:
  "restart (restart s) = restart s \<and>
   chat_history (restart s) = [] \<and>
   rag_question (restart s) = [] \<and> question (restart s) = [] \<and> answer (restart s) = [] \<and>
   bot_context (restart s) = [] \<and> previous_queries (restart s) = [] \<and>
   used_queries (restart s) = [] \<and>
   (answer_question E user_q (restart s) = Some (Inr t) \<longrightarrow>
      chat_history t = [User user_q (bot_context t), Assistant (answer t)])"
proof (intro conjI impI)
  assume "answer_question E user_q (restart s) = Some (Inr t)"
  then have "chat_history t =
      chat_history (restart s) @ [User user_q (bot_context t), Assistant (answer t)]"
    by (rule answer_question_history)
  then show "chat_history t = [User user_q (bot_context t), Assistant (answer t)]"
    by (simp add: restart_def)
qed (simp_all add: restart_def)

theorem restart_then_question_witness:
  "length (chat_history (run_final\<lparr>world := run_script\<rparr>)) = 2 \<and>
   answer_question scripted_env ''Which movie?'' (restart (run_final\<lparr>world := run_script\<rparr>)) =
     Some (Inr (run_final\<lparr>events := events run_final @ events run_final\<rparr>)) \<and>
   chat_history (run_final\<lparr>events := events run_final @ events run_final\<rparr>) =
     [User ''Which movie?'' [py_str_rows found_rows], Assistant ''Heat'']"
proof -
  let ?s = "run_final\<lparr>world := run_script\<rparr>"
  let ?t = "run_final\<lparr>events := events run_final @ events run_final\<rparr>"
  have l: "length (chat_history ?s) = 2"
    by (simp add: run_final_def)
  have h: "answer_question scripted_env ''Which movie?'' (restart ?s) = Some (Inr ?t)"
    by code_simp
  have "chat_history ?t = [User ''Which movie?'' (bot_context ?t), Assistant (answer ?t)]"
    using restart_then_question
      [THEN conjunct2, THEN conjunct2, THEN conjunct2, THEN conjunct2, THEN conjunct2,
       THEN conjunct2, THEN conjunct2, THEN conjunct2, THEN mp, OF h] .
  then have "chat_history ?t = [User ''Which movie?'' [py_str_rows found_rows], Assistant ''Heat'']"
    by (simp add: run_final_def)
  with l h show ?thesis
    by (intro conjI)
qed

end
